theory Spec2Isabelle
  imports Main "HOL-Library.Word"
begin

unbundle bit_operations_syntax

section \<open>Values, panics and callbacks\<close>

text \<open>
  The map stores values of Go's empty interface type. The model keeps the dynamic types
  that the package and its test file use: the nil interface, integers and strings, the
  test file's comparable struct \<open>Animal{name string}\<close>, the slice type
  \<open>[]interface{}\<close> that \<open>AddIfPresent\<close> asserts, and the test file's slice type
  \<open>[]Animal\<close>.

  A value of type \<open>[]interface{}\<close> is a slice header, as in Go: the backing array it
  points into, the index of its first element in that array, its length and its capacity.
  The backing arrays live in a heap beside the table, so two slices can share an array.
  The test file's \<open>[]Animal\<close> is kept as its sequence of elements: the package never
  reads or writes one, only the test file's callback does, on slices that share no array.
\<close>

record slice =
  Array :: nat
  Index :: nat
  Len :: nat
  Cap :: nat

datatype val =
    VNil
  | VInt int
  | VStr string
  | VAnimal string
  | VSlice slice
  | VAnimals "string list"

text \<open>
  The heap of backing arrays of \<open>[]interface{}\<close> slices: the array at address \<open>a\<close>
  is \<open>h ! a\<close>, and a new array gets the next address. \<open>slice_elems\<close> reads the
  elements of a slice. A slice of a running program is valid: its capacity lies inside its
  array, and its length inside its capacity; a slice of capacity zero, the nil slice among
  them, needs no array.
\<close>

type_synonym heap = "val list list"

definition slice_elems :: "heap \<Rightarrow> slice \<Rightarrow> val list" where
  "slice_elems h s = take (Len s) (drop (Index s) (h ! Array s))"

definition valid_slice :: "heap \<Rightarrow> slice \<Rightarrow> bool" where
  "valid_slice h s \<longleftrightarrow>
     Len s \<le> Cap s \<and>
     (Cap s = 0 \<or> (Array s < length h \<and> Index s + Cap s \<le> length (h ! Array s)))"

text \<open>
  Go's built-in \<open>append(s, v)\<close> for one value. With spare capacity it writes \<open>v\<close>
  into the backing array just past the slice and returns the slice one longer, on the same
  array. Otherwise it allocates a new array, copies the elements, writes \<open>v\<close> after them
  and returns a slice on the new array; the old array is left as it is. The capacity of the
  new array is chosen by Go's run time, which is not part of the repository, so it is the
  parameter \<open>growcap\<close>; it is never less than the new length, and the cells past the new
  length hold the zero value.
\<close>

definition append_slice :: "nat \<Rightarrow> heap \<Rightarrow> slice \<Rightarrow> val \<Rightarrow> slice \<times> heap" where
  "append_slice growcap h s v =
     (if Len s < Cap s
      then (s\<lparr>Len := Len s + 1\<rparr>,
            h[Array s := (h ! Array s)[Index s + Len s := v]])
      else
        (let newcap = max growcap (Len s + 1) in
         (\<lparr>Array = length h, Index = 0, Len = Len s + 1, Cap = newcap\<rparr>,
          h @ [slice_elems h s @ [v] @ replicate (newcap - (Len s + 1)) VNil])))"

text \<open>The run-time panics that the package's code can raise, and those of a callback.\<close>

datatype panic =
    DivideByZero
  | IndexOutOfRange
  | MakeSliceLenOutOfRange
  | UncomparableType
  | TypeAssertionFailed
  | CallbackPanic string

text \<open>
  \<open>val == oldValue\<close> on two interface values: values of different dynamic types are
  unequal, values of one comparable dynamic type are compared by value, and two values of
  one slice type make the comparison panic.
\<close>

fun interface_eq :: "val \<Rightarrow> val \<Rightarrow> panic + bool" where
  "interface_eq (VSlice xs) (VSlice ys) = Inl UncomparableType"
| "interface_eq (VAnimals xs) (VAnimals ys) = Inl UncomparableType"
| "interface_eq a b = Inr (a = b)"

text \<open>
  \<open>type UpsertCb func(exist bool, valueInMap interface{}, newValue interface{}) interface{}\<close>.
  A Go closure may change the variables it captured and may panic, so a callback takes the
  caller's own state \<open>'s\<close> and returns either a panic or its result with the new state.
  The source's comment forbids a callback to touch the map it is called from, so the table
  is not part of \<open>'s\<close>.
\<close>

type_synonym 's UpsertCb = "bool \<Rightarrow> val \<Rightarrow> val \<Rightarrow> 's \<Rightarrow> panic + (val \<times> 's)"

section \<open>The hash function\<close>

type_synonym uint32 = "32 word"
type_synonym uint = "64 word"

definition prime32 :: uint32 where
  "prime32 = 16777619"

text \<open>The loop of \<open>fnv32\<close>: \<open>for i := 0; i < len(key); i++\<close>, on the bytes of the key.\<close>

function fnv32_loop :: "string \<Rightarrow> nat \<Rightarrow> uint32 \<Rightarrow> uint32" where
  "fnv32_loop key i hash =
     (if i < length key
      then fnv32_loop key (i + 1) ((hash * prime32) XOR of_char (key ! i))
      else hash)"
  by pat_completeness auto
termination
  by (relation "measure (\<lambda>(key, i, hash). length key - i)") auto

declare fnv32_loop.simps [simp del]

definition fnv32 :: "string \<Rightarrow> uint32" where
  "fnv32 key = fnv32_loop key 0 2166136261"

text \<open>
  The algorithm in the words of the specification, on natural numbers: multiply by
  16777619 with the product reduced modulo \<open>2 ^ 32\<close>, then XOR with the byte.
\<close>

definition spec_hash_step :: "nat \<Rightarrow> nat \<Rightarrow> nat" where
  "spec_hash_step h b = ((h * 16777619) mod 2 ^ 32) XOR b"

definition spec_hash :: "string \<Rightarrow> nat" where
  "spec_hash key = foldl spec_hash_step 2166136261 (map of_char key)"

text \<open>
  The two standard 32-bit Fowler-Noll-Vo hashes, as reference algorithms. FNV-1 multiplies
  and then XORs (Go's \<open>hash/fnv.New32\<close>, which the repository's test compares with);
  FNV-1a XORs and then multiplies (Go's \<open>hash/fnv.New32a\<close>).
\<close>

definition fnv1_32_reference :: "string \<Rightarrow> uint32" where
  "fnv1_32_reference bs = foldl (\<lambda>h b. (h * 16777619) XOR of_char b) 2166136261 bs"

definition fnv1a_32_reference :: "string \<Rightarrow> uint32" where
  "fnv1a_32_reference bs = foldl (\<lambda>h b. (h XOR of_char b) * 16777619) 2166136261 bs"

section \<open>The table and its shards\<close>

text \<open>
  A shard is its \<open>items\<close> map. The \<open>sync.RWMutex\<close> of a shard orders concurrent
  callers only: an operation run by one caller takes the lock and releases it on every
  path that returns, so the lock is not part of the state. A path that panics leaves the
  shard locked for good, and such a path yields a panic and no table here.

  \<open>HashMap\<close> is a slice of pointers to shards; \<open>New\<close> fills it with pointers to
  distinct fresh shards and no operation changes a pointer, so the slice is a list of
  shards and a pointer is its index. Go's \<open>int\<close> and \<open>uint\<close> are those of a 64-bit
  platform.
\<close>

type_synonym ConcurrentMapShared = "string \<rightharpoonup> val"

record ConcurrentHashMap =
  Shards :: int
  HashMap :: "ConcurrentMapShared list"

text \<open>
  \<open>make(ConcurrentMap, shards)\<close> panics for a negative length; the loop then stores a
  fresh empty shard in every slot. The limits of the allocator for a very large count are
  not modelled.
\<close>

definition New :: "int \<Rightarrow> panic + ConcurrentHashMap" where
  "New shards =
     (if shards < 0 then Inl MakeSliceLenOutOfRange
      else Inr \<lparr>Shards = shards, HashMap = replicate (nat shards) Map.empty\<rparr>)"

text \<open>
  \<open>m.HashMap[uint(fnv32(key)) % uint(m.Shards)]\<close>: the remainder panics for a zero
  divisor and the index expression panics out of range. The result is the shard's index.
\<close>

definition GetShard :: "ConcurrentHashMap \<Rightarrow> string \<Rightarrow> panic + nat" where
  "GetShard m key =
     (let d = (word_of_int (Shards m) :: uint) in
      if d = 0 then Inl DivideByZero
      else
        let i = unat ((ucast (fnv32 key) :: uint) mod d) in
        if i < length (HashMap m) then Inr i else Inl IndexOutOfRange)"

text \<open>The three map primitives of Go that the operations use on a shard's \<open>items\<close>.\<close>

definition comma_ok :: "ConcurrentMapShared \<Rightarrow> string \<Rightarrow> val \<times> bool" where
  "comma_ok items key = (case items key of None \<Rightarrow> (VNil, False) | Some v \<Rightarrow> (v, True))"

definition assign :: "ConcurrentHashMap \<Rightarrow> nat \<Rightarrow> string \<Rightarrow> val \<Rightarrow> ConcurrentHashMap" where
  "assign m i key v = m\<lparr>HashMap := (HashMap m)[i := (HashMap m ! i)(key \<mapsto> v)]\<rparr>"

definition delete :: "ConcurrentHashMap \<Rightarrow> nat \<Rightarrow> string \<Rightarrow> ConcurrentHashMap" where
  "delete m i key = m\<lparr>HashMap := (HashMap m)[i := (HashMap m ! i)(key := None)]\<rparr>"

section \<open>Single-key operations\<close>

definition Set :: "ConcurrentHashMap \<Rightarrow> string \<Rightarrow> val \<Rightarrow> panic + ConcurrentHashMap" where
  "Set m key v =
     (case GetShard m key of
        Inl p \<Rightarrow> Inl p
      | Inr i \<Rightarrow> Inr (assign m i key v))"

definition Upsert ::
  "ConcurrentHashMap \<Rightarrow> string \<Rightarrow> val \<Rightarrow> 's UpsertCb \<Rightarrow> 's \<Rightarrow> panic + (val \<times> ConcurrentHashMap \<times> 's)"
where
  "Upsert m key v cb s =
     (case GetShard m key of
        Inl p \<Rightarrow> Inl p
      | Inr i \<Rightarrow>
          (case comma_ok (HashMap m ! i) key of
             (cur, ok) \<Rightarrow>
               (case cb ok cur v s of
                  Inl p \<Rightarrow> Inl p
                | Inr (res, s') \<Rightarrow> Inr (res, assign m i key res, s'))))"

definition SetIfAbsent ::
  "ConcurrentHashMap \<Rightarrow> string \<Rightarrow> val \<Rightarrow> panic + (bool \<times> ConcurrentHashMap)"
where
  "SetIfAbsent m key v =
     (case GetShard m key of
        Inl p \<Rightarrow> Inl p
      | Inr i \<Rightarrow>
          (case comma_ok (HashMap m ! i) key of
             (cur, ok) \<Rightarrow> Inr (\<not> ok, if \<not> ok then assign m i key v else m)))"

definition Get :: "ConcurrentHashMap \<Rightarrow> string \<Rightarrow> panic + (val \<times> bool)" where
  "Get m key =
     (case GetShard m key of
        Inl p \<Rightarrow> Inl p
      | Inr i \<Rightarrow> Inr (comma_ok (HashMap m ! i) key))"

definition Remove :: "ConcurrentHashMap \<Rightarrow> string \<Rightarrow> panic + ConcurrentHashMap" where
  "Remove m key =
     (case GetShard m key of
        Inl p \<Rightarrow> Inl p
      | Inr i \<Rightarrow> Inr (delete m i key))"

definition Pop ::
  "ConcurrentHashMap \<Rightarrow> string \<Rightarrow> panic + (val \<times> bool \<times> ConcurrentHashMap)"
where
  "Pop m key =
     (case GetShard m key of
        Inl p \<Rightarrow> Inl p
      | Inr i \<Rightarrow>
          (case comma_ok (HashMap m ! i) key of
             (v, exists) \<Rightarrow> Inr (v, exists, delete m i key)))"

definition SetIfPresent ::
  "ConcurrentHashMap \<Rightarrow> string \<Rightarrow> val \<Rightarrow> val \<Rightarrow> panic + (bool \<times> ConcurrentHashMap)"
where
  "SetIfPresent m key newValue oldValue =
     (case GetShard m key of
        Inl p \<Rightarrow> Inl p
      | Inr i \<Rightarrow>
          (case comma_ok (HashMap m ! i) key of
             (cur, ok) \<Rightarrow>
               (case (if ok then interface_eq cur oldValue else Inr False) of
                  Inl p \<Rightarrow> Inl p
                | Inr ok' \<Rightarrow> Inr (ok', if ok' then assign m i key newValue else m))))"

text \<open>
  \<open>AddIfPresent\<close> is the one operation that appends to a stored slice, so it is the
  one operation that takes the heap and returns it; \<open>growcap\<close> is the capacity the run
  time would pick if this call's \<open>append\<close> has to allocate.
\<close>

definition AddIfPresent ::
  "ConcurrentHashMap \<Rightarrow> string \<Rightarrow> val \<Rightarrow> nat \<Rightarrow> heap \<Rightarrow>
   panic + (bool \<times> ConcurrentHashMap \<times> heap)"
where
  "AddIfPresent m key v growcap h =
     (case GetShard m key of
        Inl p \<Rightarrow> Inl p
      | Inr i \<Rightarrow>
          (case comma_ok (HashMap m ! i) key of
             (cur, ok) \<Rightarrow>
               if ok then
                 (case cur of
                    VSlice tmp \<Rightarrow>
                      (case append_slice growcap h tmp v of
                         (tmp', h') \<Rightarrow> Inr (ok, assign m i key (VSlice tmp'), h'))
                  | _ \<Rightarrow> Inl TypeAssertionFailed)
               else Inr (ok, assign m i key v, h)))"

definition UpdateCb ::
  "ConcurrentHashMap \<Rightarrow> string \<Rightarrow> val \<Rightarrow> 's UpsertCb \<Rightarrow> 's \<Rightarrow> panic + (bool \<times> ConcurrentHashMap \<times> 's)"
where
  "UpdateCb m key v cb s =
     (case GetShard m key of
        Inl p \<Rightarrow> Inl p
      | Inr i \<Rightarrow>
          (case comma_ok (HashMap m ! i) key of
             (cur, ok) \<Rightarrow>
               if ok then
                 (case cb ok cur v s of
                    Inl p \<Rightarrow> Inl p
                  | Inr (res, s') \<Rightarrow> Inr (ok, assign m i key res, s'))
               else Inr (ok, m, s)))"

definition Update ::
  "ConcurrentHashMap \<Rightarrow> string \<Rightarrow> val \<Rightarrow> panic + (bool \<times> ConcurrentHashMap)"
where
  "Update m key v =
     (case GetShard m key of
        Inl p \<Rightarrow> Inl p
      | Inr i \<Rightarrow>
          (case comma_ok (HashMap m ! i) key of
             (cur, ok) \<Rightarrow> Inr (ok, if ok then assign m i key v else m)))"

text \<open>
  The combining callback of the repository's \<open>TestUpsert\<close>: it asserts that the new
  value is an \<open>Animal\<close>, starts a one-element \<open>[]Animal\<close> for an absent key and
  appends to the stored \<open>[]Animal\<close> otherwise. It captures no variable, so it leaves
  the caller's state as it is.
\<close>

definition appendCombiner :: "'s UpsertCb" where
  "appendCombiner exist valueInMap newValue s =
     (case newValue of
        VAnimal nv \<Rightarrow>
          if \<not> exist then Inr (VAnimals [nv], s)
          else
            (case valueInMap of
               VAnimals res \<Rightarrow> Inr (VAnimals (res @ [nv]), s)
             | _ \<Rightarrow> Inl TypeAssertionFailed)
      | _ \<Rightarrow> Inl TypeAssertionFailed)"

text \<open>
  A callback that keeps a record of its calls: \<open>recording cb\<close> behaves as \<open>cb\<close>
  on the caller's state and appends the arguments of each call that returns to a list that
  the caller keeps next to its state. It makes the number and the arguments of an operation's
  calls of its callback visible in the operation's result.
\<close>

definition recording :: "'s UpsertCb \<Rightarrow> ('s \<times> (bool \<times> val \<times> val) list) UpsertCb" where
  "recording cb exist valueInMap newValue st =
     (case st of
        (s, calls) \<Rightarrow>
          (case cb exist valueInMap newValue s of
             Inl p \<Rightarrow> Inl p
           | Inr (res, s') \<Rightarrow> Inr (res, (s', calls @ [(exist, valueInMap, newValue)]))))"

text \<open>
  Two values whose comparison panics: both hold a slice of one and the same slice type.
\<close>

fun same_slice_type :: "val \<Rightarrow> val \<Rightarrow> bool" where
  "same_slice_type (VSlice xs) (VSlice ys) = True"
| "same_slice_type (VAnimals xs) (VAnimals ys) = True"
| "same_slice_type a b = False"

text \<open>
  The slice \<open>s\<close> has the cell \<open>i\<close> of the array \<open>a\<close> among its elements; and the
  \<open>append\<close> of \<open>AddIfPresent\<close> on a key whose stored value is \<open>cur\<close> writes into
  an element of the slice \<open>s\<close>: \<open>cur\<close> is a slice with spare capacity and the cell
  just past it is an element of \<open>s\<close>.
\<close>

definition slice_has_cell :: "slice \<Rightarrow> nat \<Rightarrow> nat \<Rightarrow> bool" where
  "slice_has_cell s a i \<longleftrightarrow> Array s = a \<and> Index s \<le> i \<and> i < Index s + Len s"

definition append_writes_into :: "val \<Rightarrow> slice \<Rightarrow> bool" where
  "append_writes_into cur s =
     (case cur of
        VSlice sk \<Rightarrow> Len sk < Cap sk \<and> slice_has_cell s (Array sk) (Index sk + Len sk)
      | _ \<Rightarrow> False)"

text \<open>
  What a single-key operation on another key leaves alone for the key \<open>k'\<close>, between
  the table \<open>m\<close> before and the table \<open>m'\<close> after: the shard count, the number of
  shards, the shard that \<open>k'\<close> is routed to, what \<open>Get\<close> reports for \<open>k'\<close>, and
  the entry of \<open>k'\<close> in every shard. Of a stored slice this is the header; its
  elements are in the heap.
\<close>

definition unchanged_for :: "string \<Rightarrow> ConcurrentHashMap \<Rightarrow> ConcurrentHashMap \<Rightarrow> bool" where
  "unchanged_for k' m m' \<longleftrightarrow>
     Shards m' = Shards m \<and>
     length (HashMap m') = length (HashMap m) \<and>
     GetShard m' k' = GetShard m k' \<and>
     Get m' k' = Get m k' \<and>
     map (\<lambda>shard. shard k') (HashMap m') = map (\<lambda>shard. shard k') (HashMap m)"

section \<open>Example inputs\<close>

text \<open>
  Slices and tables of the concrete runs below. \<open>whole_slice\<close> is the header of
  \<open>s := []interface{}{1, 2}\<close> when its array is the first of the heap, and
  \<open>prefix_slice\<close> that of \<open>s[:1]\<close>: the same array, length one, capacity two.
  \<open>aliased_table\<close> is the table after \<open>m := New(2)\<close>, \<open>m.Set("monkey", s)\<close> and
  \<open>m.Set("a", s[:1])\<close>; \<open>frame_table\<close> holds the same two entries in its first shard
  and, under \<open>b\<close> in its second shard, a slice on a second array.
\<close>

abbreviation empty_slice :: slice where
  "empty_slice \<equiv> \<lparr>Array = 0, Index = 0, Len = 0, Cap = 0\<rparr>"

abbreviation slice_of_one :: slice where
  "slice_of_one \<equiv> \<lparr>Array = 0, Index = 0, Len = 1, Cap = 1\<rparr>"

abbreviation whole_slice :: slice where
  "whole_slice \<equiv> \<lparr>Array = 0, Index = 0, Len = 2, Cap = 2\<rparr>"

abbreviation prefix_slice :: slice where
  "prefix_slice \<equiv> \<lparr>Array = 0, Index = 0, Len = 1, Cap = 2\<rparr>"

abbreviation other_slice :: slice where
  "other_slice \<equiv> \<lparr>Array = 1, Index = 0, Len = 1, Cap = 1\<rparr>"

abbreviation aliased_table :: ConcurrentHashMap where
  "aliased_table \<equiv>
     projr (Set (projr (Set (projr (New 2)) ''monkey'' (VSlice whole_slice)))
                ''a'' (VSlice prefix_slice))"

abbreviation frame_table :: ConcurrentHashMap where
  "frame_table \<equiv>
     \<lparr>Shards = 2,
      HashMap = [[''monkey'' \<mapsto> VSlice whole_slice, ''a'' \<mapsto> VSlice prefix_slice],
                 [''b'' \<mapsto> VSlice other_slice]]\<rparr>"

section \<open>Shard selection and the map primitives\<close>

lemma unat_word_of_int_uint:
  assumes "0 \<le> n" "n < 2 ^ 64"
  shows "unat (word_of_int n :: uint) = nat n"
proof -
  have "uint (word_of_int n :: uint) = n"
    using assms by (simp add: uint_word_of_int)
  then show ?thesis
    by (simp only: unat_eq_nat_uint)
qed

lemma unat_ucast_uint32: "unat (ucast (h :: uint32) :: uint) = unat h"
proof -
  have "unat h < 2 ^ 32"
    using unsigned_less [of h] by simp
  then have "unat h < 2 ^ 64"
    by (rule less_trans) simp
  then have "take_bit 64 (unat h) = unat h"
    by (simp only: take_bit_nat_eq_self)
  then show ?thesis
    by (simp add: unsigned_ucast_eq)
qed

lemma GetShard_ok:
  assumes "0 < Shards m" "Shards m < 2 ^ 64" "length (HashMap m) = nat (Shards m)"
  shows "GetShard m key = Inr (unat (fnv32 key) mod nat (Shards m))"
proof -
  have n: "unat (word_of_int (Shards m) :: uint) = nat (Shards m)"
    using assms by (simp add: unat_word_of_int_uint)
  then have nz: "(word_of_int (Shards m) :: uint) \<noteq> 0"
    using assms(1) by auto
  have "unat ((ucast (fnv32 key) :: uint) mod word_of_int (Shards m))
          = unat (fnv32 key) mod nat (Shards m)"
    by (simp only: unat_mod n unat_ucast_uint32)
  moreover have "unat (fnv32 key) mod nat (Shards m) < length (HashMap m)"
    using assms by simp
  ultimately show ?thesis
    using nz by (simp add: GetShard_def Let_def)
qed

lemma GetShard_zero: "Shards m = 0 \<Longrightarrow> GetShard m key = Inl DivideByZero"
  by (simp add: GetShard_def)

lemma GetShard_bound: "GetShard m key = Inr i \<Longrightarrow> i < length (HashMap m)"
  by (auto simp: GetShard_def Let_def split: if_splits)

lemma GetShard_assign [simp]: "GetShard (assign m i k v) key = GetShard m key"
  by (simp add: GetShard_def assign_def Let_def)

lemma GetShard_delete [simp]: "GetShard (delete m i k) key = GetShard m key"
  by (simp add: GetShard_def delete_def Let_def)

lemma Shards_assign [simp]: "Shards (assign m i k v) = Shards m"
  by (simp add: assign_def)

lemma Shards_delete [simp]: "Shards (delete m i k) = Shards m"
  by (simp add: delete_def)

lemma length_assign [simp]: "length (HashMap (assign m i k v)) = length (HashMap m)"
  by (simp add: assign_def)

lemma length_delete [simp]: "length (HashMap (delete m i k)) = length (HashMap m)"
  by (simp add: delete_def)

lemma nth_assign_other [simp]: "j \<noteq> i \<Longrightarrow> HashMap (assign m i k v) ! j = HashMap m ! j"
  by (simp add: assign_def)

lemma nth_delete_other [simp]: "j \<noteq> i \<Longrightarrow> HashMap (delete m i k) ! j = HashMap m ! j"
  by (simp add: delete_def)

lemma nth_assign_same:
  "i < length (HashMap m) \<Longrightarrow> HashMap (assign m i k v) ! i = (HashMap m ! i)(k \<mapsto> v)"
  by (simp add: assign_def)

lemma nth_delete_same:
  "i < length (HashMap m) \<Longrightarrow> HashMap (delete m i k) ! i = (HashMap m ! i)(k := None)"
  by (simp add: delete_def)

lemma Get_Inr:
  "Get m key = Inr r \<longleftrightarrow> (\<exists>i. GetShard m key = Inr i \<and> r = comma_ok (HashMap m ! i) key)"
  by (auto simp: Get_def split: sum.splits)

lemma comma_ok_absent: "comma_ok items key = (cur, False) \<longleftrightarrow> items key = None \<and> cur = VNil"
  by (auto simp: comma_ok_def split: option.splits)

lemma Get_assign_same:
  "GetShard m key = Inr i \<Longrightarrow> Get (assign m i key v) key = Inr (v, True)"
  by (frule GetShard_bound) (simp add: Get_def nth_assign_same comma_ok_def)

lemma Get_delete_same:
  "GetShard m key = Inr i \<Longrightarrow> Get (delete m i key) key = Inr (VNil, False)"
  by (frule GetShard_bound) (simp add: Get_def nth_delete_same comma_ok_def)

lemma Get_assign_other: "k' \<noteq> k \<Longrightarrow> Get (assign m i k v) k' = Get m k'"
proof (cases "GetShard m k'")
  case (Inl p)
  then show ?thesis by (simp add: Get_def)
next
  case (Inr j)
  assume "k' \<noteq> k"
  then have "comma_ok (HashMap (assign m i k v) ! j) k' = comma_ok (HashMap m ! j) k'"
    using GetShard_bound [OF Inr]
    by (cases "i = j") (simp_all add: assign_def comma_ok_def)
  with Inr show ?thesis by (simp add: Get_def)
qed

lemma Get_delete_other: "k' \<noteq> k \<Longrightarrow> Get (delete m i k) k' = Get m k'"
proof (cases "GetShard m k'")
  case (Inl p)
  then show ?thesis by (simp add: Get_def)
next
  case (Inr j)
  assume "k' \<noteq> k"
  then have "comma_ok (HashMap (delete m i k) ! j) k' = comma_ok (HashMap m ! j) k'"
    using GetShard_bound [OF Inr]
    by (cases "i = j") (simp_all add: delete_def comma_ok_def)
  with Inr show ?thesis by (simp add: Get_def)
qed

lemma delete_absent: "(HashMap m ! i) key = None \<Longrightarrow> delete m i key = m"
  by (simp add: delete_def fun_upd_idem)

lemma Get_present_cases:
  assumes "Get m key = Inr (cur, present)"
  obtains i where "GetShard m key = Inr i" "i < length (HashMap m)"
    "comma_ok (HashMap m ! i) key = (cur, present)"
  using assms GetShard_bound by (auto simp: Get_Inr)

lemma Get_New_absent:
  "0 < n \<Longrightarrow> n < 2 ^ 64 \<Longrightarrow>
   Get \<lparr>Shards = n, HashMap = replicate (nat n) Map.empty\<rparr> key = Inr (VNil, False)"
  by (simp add: Get_def GetShard_ok comma_ok_def)

lemma interface_eq_cases:
  "interface_eq a b = (if same_slice_type a b then Inl UncomparableType else Inr (a = b))"
  by (cases "(a, b)" rule: interface_eq.cases) simp_all

section \<open>What an operation on one key leaves alone\<close>

lemma map_entry_list_update:
  assumes "y k' = (xs ! i) k'"
  shows "map (\<lambda>shard. shard k') (xs[i := y]) = map (\<lambda>shard. shard k') xs"
proof (cases "i < length xs")
  case True
  have "map (\<lambda>shard. shard k') (xs[i := y]) = (map (\<lambda>shard. shard k') xs)[i := y k']"
    by (simp add: map_update)
  also have "\<dots> = (map (\<lambda>shard. shard k') xs)[i := map (\<lambda>shard. shard k') xs ! i]"
    using True assms by simp
  also have "\<dots> = map (\<lambda>shard. shard k') xs"
    by (rule list_update_id)
  finally show ?thesis .
next
  case False
  then have "length xs \<le> i" by simp
  then have "xs[i := y] = xs" by (rule list_update_beyond)
  then show ?thesis by simp
qed

lemma unchanged_for_refl: "unchanged_for k' m m"
  by (simp add: unchanged_for_def)

lemma unchanged_for_assign: "k' \<noteq> k \<Longrightarrow> unchanged_for k' m (assign m i k v)"
  by (simp add: unchanged_for_def Get_assign_other)
     (simp add: assign_def map_entry_list_update)

lemma unchanged_for_delete: "k' \<noteq> k \<Longrightarrow> unchanged_for k' m (delete m i k)"
  by (simp add: unchanged_for_def Get_delete_other)
     (simp add: delete_def map_entry_list_update)

lemma frame_Set: "k' \<noteq> k \<Longrightarrow> Set m k v = Inr m' \<Longrightarrow> unchanged_for k' m m'"
  by (auto simp: Set_def unchanged_for_assign split: sum.splits)

lemma frame_Remove: "k' \<noteq> k \<Longrightarrow> Remove m k = Inr m' \<Longrightarrow> unchanged_for k' m m'"
  by (auto simp: Remove_def unchanged_for_delete split: sum.splits)

lemma frame_Pop: "k' \<noteq> k \<Longrightarrow> Pop m k = Inr (x, b, m') \<Longrightarrow> unchanged_for k' m m'"
  by (auto simp: Pop_def unchanged_for_delete split: sum.splits prod.splits)

lemma frame_SetIfAbsent:
  "k' \<noteq> k \<Longrightarrow> SetIfAbsent m k v = Inr (b, m') \<Longrightarrow> unchanged_for k' m m'"
  by (auto simp: SetIfAbsent_def unchanged_for_assign unchanged_for_refl
           split: sum.splits prod.splits if_splits)

lemma frame_SetIfPresent:
  "k' \<noteq> k \<Longrightarrow> SetIfPresent m k v old = Inr (b, m') \<Longrightarrow> unchanged_for k' m m'"
  by (auto simp: SetIfPresent_def unchanged_for_assign unchanged_for_refl
           split: sum.splits prod.splits if_splits)

lemma frame_AddIfPresent:
  "k' \<noteq> k \<Longrightarrow> AddIfPresent m k v growcap h = Inr (b, m', h') \<Longrightarrow> unchanged_for k' m m'"
  by (auto simp: AddIfPresent_def unchanged_for_assign
           split: sum.splits prod.splits if_splits val.splits)

lemma frame_Upsert:
  "k' \<noteq> k \<Longrightarrow> Upsert m k v cb s = Inr (r, m', s') \<Longrightarrow> unchanged_for k' m m'"
  by (auto simp: Upsert_def unchanged_for_assign split: sum.splits prod.splits)

lemma frame_Update:
  "k' \<noteq> k \<Longrightarrow> Update m k v = Inr (b, m') \<Longrightarrow> unchanged_for k' m m'"
  by (auto simp: Update_def unchanged_for_assign unchanged_for_refl
           split: sum.splits prod.splits if_splits)

lemma frame_UpdateCb:
  "k' \<noteq> k \<Longrightarrow> UpdateCb m k v cb s = Inr (b, m', s') \<Longrightarrow> unchanged_for k' m m'"
  by (auto simp: UpdateCb_def unchanged_for_assign unchanged_for_refl
           split: sum.splits prod.splits if_splits)

section \<open>Appending to a slice\<close>

lemma take_drop_update_outside:
  assumes "c < n \<or> n + l \<le> c"
  shows "take l (drop n (xs[c := v])) = take l (drop n xs)"
proof (cases "c < n")
  case True
  then show ?thesis by simp
next
  case False
  with assms have c: "n \<le> c" "l \<le> c - n" by simp_all
  from c(1) have "drop n (xs[c := v]) = (drop n xs)[c - n := v]"
    by (simp add: drop_update_swap)
  with c(2) show ?thesis by simp
qed

lemma take_drop_update_inside:
  assumes "n \<le> c" "c < n + l"
  shows "take l (drop n (xs[c := v])) = (take l (drop n xs))[c - n := v]"
proof -
  from assms(1) have "drop n (xs[c := v]) = (drop n xs)[c - n := v]"
    by (simp add: drop_update_swap)
  moreover from assms have "c - n < l" by simp
  ultimately show ?thesis by (simp add: take_update_swap)
qed

lemma take_Suc_update_end:
  assumes "l < length ys"
  shows "take (Suc l) (ys[l := v]) = take l ys @ [v]"
  using assms by (simp add: take_Suc_conv_app_nth)

lemma append_slice_elems:
  assumes "valid_slice h s" "append_slice growcap h s v = (s', h')"
  shows "slice_elems h' s' = slice_elems h s @ [v]"
proof (cases "Len s < Cap s")
  case True
  with assms(1) have a: "Array s < length h" and b: "Index s + Cap s \<le> length (h ! Array s)"
    by (auto simp: valid_slice_def)
  from True assms(2) have s': "s' = s\<lparr>Len := Len s + 1\<rparr>"
    and h': "h' = h[Array s := (h ! Array s)[Index s + Len s := v]]"
    by (simp_all add: append_slice_def)
  have "drop (Index s) ((h ! Array s)[Index s + Len s := v])
      = (drop (Index s) (h ! Array s))[Len s := v]"
    by (simp add: drop_update_swap)
  moreover from True b have "Len s < length (drop (Index s) (h ! Array s))"
    by simp
  ultimately show ?thesis
    using a by (simp add: s' h' slice_elems_def take_Suc_update_end)
next
  case False
  with assms(1) have l: "length (slice_elems h s) = Len s"
    by (auto simp: valid_slice_def slice_elems_def)
  from False assms(2) show ?thesis
    by (auto simp: append_slice_def Let_def slice_elems_def [of "h @ _"] l)
qed

lemma append_slice_other:
  assumes "valid_slice h t"
      and "\<not> (Len s < Cap s \<and> slice_has_cell t (Array s) (Index s + Len s))"
      and "append_slice growcap h s v = (s', h')"
  shows "slice_elems h' t = slice_elems h t"
proof (cases "Cap t = 0")
  case True
  with assms(1) have "Len t = 0" by (simp add: valid_slice_def)
  then show ?thesis by (simp add: slice_elems_def)
next
  case False
  with assms(1) have a: "Array t < length h"
    by (simp add: valid_slice_def)
  show ?thesis
  proof (cases "Len s < Cap s")
    case True
    with assms(3) have h': "h' = h[Array s := (h ! Array s)[Index s + Len s := v]]"
      by (simp add: append_slice_def)
    show ?thesis
    proof (cases "Array t = Array s")
      case same: True
      with True assms(2) have "Index s + Len s < Index t \<or> Index t + Len t \<le> Index s + Len s"
        by (auto simp: slice_has_cell_def)
      then show ?thesis
        using a same by (simp add: h' slice_elems_def take_drop_update_outside)
    next
      case False
      then show ?thesis by (simp add: h' slice_elems_def)
    qed
  next
    case False
    with assms(3) a show ?thesis
      by (auto simp: append_slice_def Let_def slice_elems_def nth_append)
  qed
qed

lemma append_slice_written:
  assumes "valid_slice h t" "Len s < Cap s"
      and "slice_has_cell t (Array s) (Index s + Len s)"
      and "append_slice growcap h s v = (s', h')"
  shows "slice_elems h' t = (slice_elems h t)[Index s + Len s - Index t := v]"
proof -
  from assms(3) have c: "Array t = Array s" "Index t \<le> Index s + Len s"
    "Index s + Len s < Index t + Len t"
    by (simp_all add: slice_has_cell_def)
  with assms(1) have a: "Array t < length h"
    by (auto simp: valid_slice_def)
  from assms(2,4) have h': "h' = h[Array s := (h ! Array s)[Index s + Len s := v]]"
    by (simp add: append_slice_def)
  from a c show ?thesis
    by (simp add: h' slice_elems_def take_drop_update_inside)
qed

lemma append_slice_valid:
  assumes "valid_slice h s" "append_slice growcap h s v = (s', h')"
  shows "valid_slice h' s'"
proof (cases "Len s < Cap s")
  case True
  with assms show ?thesis
    by (auto simp: append_slice_def valid_slice_def)
next
  case False
  with assms(1) have l: "length (slice_elems h s) = Len s"
    by (auto simp: valid_slice_def slice_elems_def)
  from False assms(2) show ?thesis
    by (auto simp: append_slice_def Let_def valid_slice_def l)
qed

lemma AddIfPresent_cases:
  assumes "Get m k = Inr (cur, present)"
      and "AddIfPresent m k v growcap h = Inr (b, m', h')"
  shows "(present \<and> (\<exists>sk s'. cur = VSlice sk \<and> append_slice growcap h sk v = (s', h')))
       \<or> (\<not> present \<and> h' = h)"
proof -
  from assms(1) obtain i where i: "GetShard m k = Inr i"
    and c: "comma_ok (HashMap m ! i) k = (cur, present)"
    by (rule Get_present_cases)
  from assms(2) i c show ?thesis
    by (auto simp: AddIfPresent_def split: if_splits val.splits prod.splits)
qed

section \<open>The hash function computes the specified algorithm\<close>

lemma fnv32_loop_foldl:
  "i \<le> length key \<Longrightarrow>
   fnv32_loop key i h = foldl (\<lambda>h b. (h * 16777619) XOR of_char b) h (drop i key)"
proof (induction key i h rule: fnv32_loop.induct)
  case (1 key i hash)
  show ?case
  proof (cases "i < length key")
    case True
    then have "drop i key = key ! i # drop (Suc i) key"
      by (simp add: Cons_nth_drop_Suc)
    with True 1 show ?thesis
      by (subst fnv32_loop.simps) (simp add: prime32_def)
  next
    case False
    with 1 show ?thesis
      by (subst fnv32_loop.simps) simp
  qed
qed

lemma fnv32_foldl:
  "fnv32 key = foldl (\<lambda>h b. (h * 16777619) XOR of_char b) 2166136261 key"
  by (simp add: fnv32_def fnv32_loop_foldl)

lemma unat_of_char_uint32: "unat (of_char b :: uint32) = of_char b"
proof -
  have "(of_char b :: uint32) = of_nat (of_char b)"
    by (simp add: of_nat_of_char)
  moreover have "(of_char b :: nat) < 2 ^ 32"
    by (rule less_trans [OF nat_of_char_less_256]) simp
  ultimately show ?thesis
    by (simp only: unat_of_nat) simp
qed

lemma unat_hash_step:
  "unat ((h * 16777619) XOR of_char b :: uint32) = spec_hash_step (unat h) (of_char b)"
proof -
  have "unat (h * 16777619 :: uint32) = (unat h * 16777619) mod 2 ^ 32"
    by (simp add: unat_word_ariths)
  then show ?thesis
    by (simp only: spec_hash_step_def unsigned_xor_eq unat_of_char_uint32)
qed

lemma foldl_unat_spec:
  "unat (foldl (\<lambda>h b. (h * 16777619) XOR of_char b) (h0 :: uint32) key)
     = foldl spec_hash_step (unat h0) (map of_char key)"
  by (induction key arbitrary: h0) (simp_all add: unat_hash_step)

text \<open>
  Claim C7. For every key, the value of \<open>fnv32\<close> read as an unsigned number is the
  result of the specified algorithm: start from 2166136261 and, for each byte of the key
  in order, multiply by 16777619 modulo \<open>2 ^ 32\<close> and then XOR with the byte.
\<close>

theorem fnv32_computes_specified_hash:
  "unat (fnv32 key) = spec_hash key"
  by (simp add: fnv32_foldl spec_hash_def foldl_unat_spec)

section \<open>The hash of ABC\<close>

text \<open>
  Claim C8, as stated, fails: the hash of \<open>ABC\<close> is not the FNV-1a value of
  \<open>ABC\<close>. \<open>fnv32\<close> yields 1665970155 and FNV-1a yields 1552166763.
\<close>

theorem fnv32_ABC_differs_from_fnv1a:
  "fnv32 ''ABC'' = 1665970155 \<and> fnv1a_32_reference ''ABC'' = 1552166763
   \<and> fnv32 ''ABC'' \<noteq> fnv1a_32_reference ''ABC''"
  by (simp add: fnv32_foldl fnv1a_32_reference_def)

text \<open>
  Claim C8, amended. The hash of \<open>ABC\<close> is the standard FNV-1 32-bit hash value of
  \<open>ABC\<close>, the multiply-then-XOR variant that the repository's test compares with.
\<close>

theorem fnv32_ABC_is_fnv1:
  "fnv32 ''ABC'' = fnv1_32_reference ''ABC'' \<and> fnv1_32_reference ''ABC'' = 1665970155"
  by (simp add: fnv32_foldl fnv1_32_reference_def)

section \<open>Upsert\<close>

text \<open>
  Claim C1. Let \<open>Get\<close> report \<open>(cur, present)\<close> for the key and let the callback
  return \<open>res\<close> on \<open>(present, cur, v)\<close>. Then \<open>Upsert\<close> returns \<open>res\<close>, the
  caller's state is the one after that single call, the recorded calls grow by exactly the
  one call \<open>(present, cur, v)\<close>, and \<open>res\<close> is stored under the key. For an absent
  key the callback receives \<open>False\<close> and the nil value. A second \<open>Upsert\<close> on the
  same key calls the callback on the result of the first, so the calls compose in order.
\<close>

theorem Upsert_invokes_combine_once_and_stores:
  assumes "Get m key = Inr (cur, present)"
      and "cb present cur v s = Inr (res, s')"
  shows "\<exists>m'. Upsert m key v cb s = Inr (res, m', s')
           \<and> Upsert m key v (recording cb) (s, calls)
               = Inr (res, m', (s', calls @ [(present, cur, v)]))
           \<and> Get m' key = Inr (res, True)
           \<and> (\<not> present \<longrightarrow> cur = VNil)
           \<and> (cb True res v2 s' = Inr (res2, s'') \<longrightarrow>
                (\<exists>m''. Upsert m' key v2 (recording cb) (s', calls @ [(present, cur, v)])
                          = Inr (res2, m'', (s'', calls @ [(present, cur, v), (True, res, v2)]))
                      \<and> Get m'' key = Inr (res2, True)))"
proof -
  from assms(1) obtain i where i: "GetShard m key = Inr i"
    and b: "i < length (HashMap m)"
    and c: "comma_ok (HashMap m ! i) key = (cur, present)"
    by (rule Get_present_cases)
  let ?m' = "assign m i key res"
  from i c assms(2) have 1: "Upsert m key v cb s = Inr (res, ?m', s')"
    by (simp add: Upsert_def)
  from i c assms(2) have 2: "Upsert m key v (recording cb) (s, calls)
      = Inr (res, ?m', (s', calls @ [(present, cur, v)]))"
    by (simp add: Upsert_def recording_def)
  from i have 3: "Get ?m' key = Inr (res, True)"
    by (rule Get_assign_same)
  from c have 4: "\<not> present \<longrightarrow> cur = VNil"
    by (auto simp: comma_ok_absent)
  have 5: "\<exists>m''. Upsert ?m' key v2 (recording cb) (s', calls @ [(present, cur, v)])
                          = Inr (res2, m'', (s'', calls @ [(present, cur, v), (True, res, v2)]))
                      \<and> Get m'' key = Inr (res2, True)"
    if cb2: "cb True res v2 s' = Inr (res2, s'')"
  proof -
    let ?m'' = "assign ?m' i key res2"
    from i b cb2 have "Upsert ?m' key v2 (recording cb) (s', calls @ [(present, cur, v)])
        = Inr (res2, ?m'', (s'', calls @ [(present, cur, v), (True, res, v2)]))"
      by (simp add: Upsert_def recording_def nth_assign_same comma_ok_def)
    moreover from i have "Get ?m'' key = Inr (res2, True)"
      by (simp add: Get_assign_same)
    ultimately show ?thesis by blast
  qed
  from 1 2 3 4 5 show ?thesis by blast
qed

text \<open>
  The example of the specification: on the empty table of \<open>New 64\<close>, the upsert of the
  dolphin and then of the whale under the key \<open>m\<close> with the appending callback leaves
  the sequence of the dolphin and the whale, in that order; the callback is called once by
  each upsert.
\<close>

theorem Upsert_invokes_combine_once_and_stores_witness:
  "New 64 = Inr \<lparr>Shards = 64, HashMap = replicate 64 Map.empty\<rparr>
   \<and> Get \<lparr>Shards = 64, HashMap = replicate 64 Map.empty\<rparr> ''m'' = Inr (VNil, False)
   \<and> appendCombiner False VNil (VAnimal ''dolphin'') () = Inr (VAnimals [''dolphin''], ())
   \<and> appendCombiner True (VAnimals [''dolphin'']) (VAnimal ''whale'') ()
       = Inr (VAnimals [''dolphin'', ''whale''], ())
   \<and> (\<exists>m' m''.
          Upsert \<lparr>Shards = 64, HashMap = replicate 64 Map.empty\<rparr> ''m'' (VAnimal ''dolphin'')
            (recording appendCombiner) ((), [])
            = Inr (VAnimals [''dolphin''], m', ((), [(False, VNil, VAnimal ''dolphin'')]))
        \<and> Upsert m' ''m'' (VAnimal ''whale'')
            (recording appendCombiner) ((), [(False, VNil, VAnimal ''dolphin'')])
            = Inr (VAnimals [''dolphin'', ''whale''], m'',
                   ((), [(False, VNil, VAnimal ''dolphin''),
                         (True, VAnimals [''dolphin''], VAnimal ''whale'')]))
        \<and> Get m'' ''m'' = Inr (VAnimals [''dolphin'', ''whale''], True))"
proof -
  let ?t = "\<lparr>Shards = 64, HashMap = replicate 64 Map.empty\<rparr>"
  have n: "New 64 = Inr ?t"
    by (simp add: New_def)
  have h: "Get ?t ''m'' = Inr (VNil, False)"
    using Get_New_absent [of 64] by simp
  have cb1: "appendCombiner False VNil (VAnimal ''dolphin'') () = Inr (VAnimals [''dolphin''], ())"
    by (simp add: appendCombiner_def)
  have cb2: "appendCombiner True (VAnimals [''dolphin'']) (VAnimal ''whale'') ()
       = Inr (VAnimals [''dolphin'', ''whale''], ())"
    by (simp add: appendCombiner_def)
  from Upsert_invokes_combine_once_and_stores
      [where cb = appendCombiner and s = "()" and calls = "[]" and ?v2.0 = "VAnimal ''whale''"
         and ?res2.0 = "VAnimals [''dolphin'', ''whale'']" and s'' = "()", OF h cb1] cb2
  have "\<exists>m' m''.
          Upsert ?t ''m'' (VAnimal ''dolphin'') (recording appendCombiner) ((), [])
            = Inr (VAnimals [''dolphin''], m', ((), [(False, VNil, VAnimal ''dolphin'')]))
        \<and> Upsert m' ''m'' (VAnimal ''whale'')
            (recording appendCombiner) ((), [(False, VNil, VAnimal ''dolphin'')])
            = Inr (VAnimals [''dolphin'', ''whale''], m'',
                   ((), [(False, VNil, VAnimal ''dolphin''),
                         (True, VAnimals [''dolphin''], VAnimal ''whale'')]))
        \<and> Get m'' ''m'' = Inr (VAnimals [''dolphin'', ''whale''], True)"
    by auto
  with n h cb1 cb2 show ?thesis by blast
qed

section \<open>SetIfAbsent\<close>

text \<open>
  Claim C4. \<open>SetIfAbsent\<close> returns whether the key was missing; a missing key gets the
  value, a present key leaves the table as it is. A second \<open>SetIfAbsent\<close> on the
  resulting table returns \<open>False\<close> and changes nothing, so the first value stays.
\<close>

theorem SetIfAbsent_inserts_only_when_missing:
  assumes "Get m key = Inr (cur, present)"
  shows "\<exists>m'. SetIfAbsent m key v1 = Inr (\<not> present, m')
           \<and> Get m' key = Inr (if present then cur else v1, True)
           \<and> (present \<longrightarrow> m' = m)
           \<and> SetIfAbsent m' key v2 = Inr (False, m')"
proof -
  from assms obtain i where i: "GetShard m key = Inr i"
    and c: "comma_ok (HashMap m ! i) key = (cur, present)"
    by (auto simp: Get_Inr)
  show ?thesis
  proof (cases present)
    case True
    with i c have "SetIfAbsent m key v = Inr (False, m)" for v
      by (simp add: SetIfAbsent_def)
    with True assms show ?thesis by simp
  next
    case False
    let ?m' = "assign m i key v1"
    from False i c have 1: "SetIfAbsent m key v1 = Inr (True, ?m')"
      by (simp add: SetIfAbsent_def)
    from i have 2: "Get ?m' key = Inr (v1, True)"
      by (rule Get_assign_same)
    from i GetShard_bound [OF i] have 3: "SetIfAbsent ?m' key v2 = Inr (False, ?m')"
      by (simp add: SetIfAbsent_def nth_assign_same comma_ok_def)
    from False 1 2 3 show ?thesis by simp
  qed
qed

theorem SetIfAbsent_inserts_only_when_missing_witness:
  "New 64 = Inr \<lparr>Shards = 64, HashMap = replicate 64 Map.empty\<rparr>
   \<and> Get \<lparr>Shards = 64, HashMap = replicate 64 Map.empty\<rparr> ''elephant'' = Inr (VNil, False)
   \<and> (\<exists>m'. SetIfAbsent \<lparr>Shards = 64, HashMap = replicate 64 Map.empty\<rparr> ''elephant''
                (VAnimal ''elephant'') = Inr (True, m')
          \<and> Get m' ''elephant'' = Inr (VAnimal ''elephant'', True)
          \<and> SetIfAbsent m' ''elephant'' (VAnimal ''monkey'') = Inr (False, m'))"
proof -
  let ?t = "\<lparr>Shards = 64, HashMap = replicate 64 Map.empty\<rparr>"
  have n: "New 64 = Inr ?t"
    by (simp add: New_def)
  have h: "Get ?t ''elephant'' = Inr (VNil, False)"
    using Get_New_absent [of 64] by simp
  from SetIfAbsent_inserts_only_when_missing [OF h, of "VAnimal ''elephant''" "VAnimal ''monkey''"]
  show ?thesis using n h by simp
qed

section \<open>Pop\<close>

text \<open>
  Claim C5. \<open>Pop\<close> returns what \<open>Get\<close> reports for the key, value and presence,
  and removes the key: \<open>Get\<close> and a second \<open>Pop\<close> on the resulting table report
  the key absent. For an absent key the result is the nil value and not-present, and the
  table is unchanged.
\<close>

theorem Pop_returns_and_removes:
  assumes "Get m key = Inr (cur, present)"
  shows "\<exists>m'. Pop m key = Inr (cur, present, m')
           \<and> Get m' key = Inr (VNil, False)
           \<and> Pop m' key = Inr (VNil, False, m')
           \<and> (\<not> present \<longrightarrow> cur = VNil \<and> m' = m)"
proof -
  from assms obtain i where i: "GetShard m key = Inr i"
    and c: "comma_ok (HashMap m ! i) key = (cur, present)"
    by (auto simp: Get_Inr)
  let ?m' = "delete m i key"
  from i c have 1: "Pop m key = Inr (cur, present, ?m')"
    by (simp add: Pop_def)
  from i have 2: "Get ?m' key = Inr (VNil, False)"
    by (rule Get_delete_same)
  have idem: "delete ?m' i key = ?m'"
    using GetShard_bound [OF i] by (simp add: delete_absent nth_delete_same)
  from i GetShard_bound [OF i] have 3: "Pop ?m' key = Inr (VNil, False, ?m')"
    by (simp add: Pop_def nth_delete_same comma_ok_def idem)
  have 4: "cur = VNil \<and> ?m' = m" if "\<not> present"
    using that c by (simp add: comma_ok_absent delete_absent)
  from 1 2 3 4 show ?thesis by blast
qed

theorem Pop_returns_and_removes_witness:
  "Get \<lparr>Shards = 2, HashMap = [[''monkey'' \<mapsto> VAnimal ''monkey''], Map.empty]\<rparr> ''monkey''
     = Inr (VAnimal ''monkey'', True)
   \<and> (\<exists>m'. Pop \<lparr>Shards = 2, HashMap = [[''monkey'' \<mapsto> VAnimal ''monkey''], Map.empty]\<rparr> ''monkey''
               = Inr (VAnimal ''monkey'', True, m')
          \<and> Get m' ''monkey'' = Inr (VNil, False)
          \<and> Pop m' ''monkey'' = Inr (VNil, False, m'))
   \<and> Get \<lparr>Shards = 2, HashMap = [Map.empty, Map.empty]\<rparr> ''monkey'' = Inr (VNil, False)
   \<and> Pop \<lparr>Shards = 2, HashMap = [Map.empty, Map.empty]\<rparr> ''monkey''
       = Inr (VNil, False, \<lparr>Shards = 2, HashMap = [Map.empty, Map.empty]\<rparr>)"
proof -
  let ?t = "\<lparr>Shards = 2, HashMap = [[''monkey'' \<mapsto> VAnimal ''monkey''], Map.empty]\<rparr>"
  let ?e = "\<lparr>Shards = 2, HashMap = [Map.empty, Map.empty]\<rparr>"
  have h: "Get ?t ''monkey'' = Inr (VAnimal ''monkey'', True)"
    by (simp add: Get_def GetShard_ok comma_ok_def fnv32_foldl)
  have e: "Get ?e ''monkey'' = Inr (VNil, False)"
    by (simp add: Get_def GetShard_ok comma_ok_def fnv32_foldl)
  from Pop_returns_and_removes [OF h] Pop_returns_and_removes [OF e]
  show ?thesis using h e by auto
qed

section \<open>Update and UpdateCb\<close>

text \<open>
  Claim C6. For a present key \<open>Update\<close> stores the value and returns \<open>True\<close>, and
  \<open>UpdateCb\<close> calls the callback once on \<open>(True, cur, v)\<close>, stores its result and
  returns \<open>True\<close>. For an absent key both return \<open>False\<close>, the table and the
  caller's state are unchanged, no call of the callback is recorded, and the key is still
  absent.
\<close>

theorem Update_and_UpdateCb_act_only_when_present:
  assumes "Get m key = Inr (cur, present)"
  shows "(present \<longrightarrow> (\<exists>m'. Update m key v = Inr (True, m') \<and> Get m' key = Inr (v, True)))
       \<and> (present \<longrightarrow> cb True cur v s = Inr (res, s') \<longrightarrow>
            (\<exists>m'. UpdateCb m key v cb s = Inr (True, m', s')
                 \<and> UpdateCb m key v (recording cb) (s, calls)
                     = Inr (True, m', (s', calls @ [(True, cur, v)]))
                 \<and> Get m' key = Inr (res, True)))
       \<and> (\<not> present \<longrightarrow>
            Update m key v = Inr (False, m)
          \<and> UpdateCb m key v cb s = Inr (False, m, s)
          \<and> UpdateCb m key v (recording cb) (s, calls) = Inr (False, m, (s, calls))
          \<and> Get m key = Inr (VNil, False))"
proof -
  from assms obtain i where i: "GetShard m key = Inr i"
    and c: "comma_ok (HashMap m ! i) key = (cur, present)"
    by (rule Get_present_cases)
  show ?thesis
  proof (cases present)
    case True
    from True i c have 1: "Update m key v = Inr (True, assign m i key v)"
      by (simp add: Update_def)
    from i have 2: "Get (assign m i key v) key = Inr (v, True)"
      by (rule Get_assign_same)
    have 3: "\<exists>m'. UpdateCb m key v cb s = Inr (True, m', s')
                 \<and> UpdateCb m key v (recording cb) (s, calls)
                     = Inr (True, m', (s', calls @ [(True, cur, v)]))
                 \<and> Get m' key = Inr (res, True)"
      if cb: "cb True cur v s = Inr (res, s')"
    proof -
      from True i c cb have "UpdateCb m key v cb s = Inr (True, assign m i key res, s')"
        by (simp add: UpdateCb_def)
      moreover from True i c cb have "UpdateCb m key v (recording cb) (s, calls)
          = Inr (True, assign m i key res, (s', calls @ [(True, cur, v)]))"
        by (simp add: UpdateCb_def recording_def)
      moreover from i have "Get (assign m i key res) key = Inr (res, True)"
        by (rule Get_assign_same)
      ultimately show ?thesis by blast
    qed
    from True 1 2 3 show ?thesis by blast
  next
    case False
    from False i c have "Update m key v = Inr (False, m)"
      by (simp add: Update_def)
    moreover from False i c have "UpdateCb m key v cb s = Inr (False, m, s)"
      by (simp add: UpdateCb_def)
    moreover from False i c
    have "UpdateCb m key v (recording cb) (s, calls) = Inr (False, m, (s, calls))"
      by (simp add: UpdateCb_def)
    moreover from False c assms have "Get m key = Inr (VNil, False)"
      by (simp add: comma_ok_absent)
    ultimately show ?thesis using False by blast
  qed
qed

theorem Update_and_UpdateCb_act_only_when_present_witness:
  "Get \<lparr>Shards = 2, HashMap = [Map.empty, [''marine'' \<mapsto> VAnimals [''dolphin'']]]\<rparr> ''marine''
     = Inr (VAnimals [''dolphin''], True)
   \<and> appendCombiner True (VAnimals [''dolphin'']) (VAnimal ''whale'') ()
       = Inr (VAnimals [''dolphin'', ''whale''], ())
   \<and> (\<exists>m'. Update \<lparr>Shards = 2, HashMap = [Map.empty, [''marine'' \<mapsto> VAnimals [''dolphin'']]]\<rparr>
               ''marine'' (VAnimal ''whale'') = Inr (True, m')
          \<and> Get m' ''marine'' = Inr (VAnimal ''whale'', True))
   \<and> (\<exists>m'. UpdateCb \<lparr>Shards = 2, HashMap = [Map.empty, [''marine'' \<mapsto> VAnimals [''dolphin'']]]\<rparr>
               ''marine'' (VAnimal ''whale'') (recording appendCombiner) ((), [])
               = Inr (True, m', ((), [(True, VAnimals [''dolphin''], VAnimal ''whale'')]))
          \<and> Get m' ''marine'' = Inr (VAnimals [''dolphin'', ''whale''], True))
   \<and> Get \<lparr>Shards = 2, HashMap = [Map.empty, [''marine'' \<mapsto> VAnimals [''dolphin'']]]\<rparr> ''predator''
       = Inr (VNil, False)
   \<and> Update \<lparr>Shards = 2, HashMap = [Map.empty, [''marine'' \<mapsto> VAnimals [''dolphin'']]]\<rparr>
         ''predator'' (VAnimal ''tiger'')
       = Inr (False, \<lparr>Shards = 2, HashMap = [Map.empty, [''marine'' \<mapsto> VAnimals [''dolphin'']]]\<rparr>)
   \<and> UpdateCb \<lparr>Shards = 2, HashMap = [Map.empty, [''marine'' \<mapsto> VAnimals [''dolphin'']]]\<rparr>
         ''predator'' (VAnimal ''tiger'') (recording appendCombiner) ((), [])
       = Inr (False, \<lparr>Shards = 2, HashMap = [Map.empty, [''marine'' \<mapsto> VAnimals [''dolphin'']]]\<rparr>,
              ((), []))"
proof -
  let ?t = "\<lparr>Shards = 2, HashMap = [Map.empty, [''marine'' \<mapsto> VAnimals [''dolphin'']]]\<rparr>"
  have h: "Get ?t ''marine'' = Inr (VAnimals [''dolphin''], True)"
    by (simp add: Get_def GetShard_ok comma_ok_def fnv32_foldl)
  have a: "Get ?t ''predator'' = Inr (VNil, False)"
    by (simp add: Get_def GetShard_ok comma_ok_def fnv32_foldl)
  have cb: "appendCombiner True (VAnimals [''dolphin'']) (VAnimal ''whale'') ()
       = Inr (VAnimals [''dolphin'', ''whale''], ())"
    by (simp add: appendCombiner_def)
  from Update_and_UpdateCb_act_only_when_present
      [where cb = appendCombiner and s = "()" and calls = "[]" and v = "VAnimal ''whale''"
         and res = "VAnimals [''dolphin'', ''whale'']" and s' = "()", OF h] cb
  have 1: "(\<exists>m'. Update ?t ''marine'' (VAnimal ''whale'') = Inr (True, m')
          \<and> Get m' ''marine'' = Inr (VAnimal ''whale'', True))
   \<and> (\<exists>m'. UpdateCb ?t ''marine'' (VAnimal ''whale'') (recording appendCombiner) ((), [])
               = Inr (True, m', ((), [(True, VAnimals [''dolphin''], VAnimal ''whale'')]))
          \<and> Get m' ''marine'' = Inr (VAnimals [''dolphin'', ''whale''], True))"
    by auto
  from Update_and_UpdateCb_act_only_when_present
      [where cb = "recording appendCombiner" and s = "((), [])" and v = "VAnimal ''tiger''", OF a]
  have 2: "Update ?t ''predator'' (VAnimal ''tiger'') = Inr (False, ?t)
    \<and> UpdateCb ?t ''predator'' (VAnimal ''tiger'') (recording appendCombiner) ((), [])
       = Inr (False, ?t, ((), []))"
    by simp
  from h cb 1 a 2 show ?thesis by blast
qed

section \<open>SetIfPresent\<close>

text \<open>
  Claim C2, as stated, fails for values that Go cannot compare. On the table of
  \<open>New(1)\<close>, after \<open>Set\<close> has stored an empty \<open>[]interface{}\<close> slice under the
  key, \<open>SetIfPresent\<close> with an empty \<open>[]interface{}\<close> slice as the expected old
  value returns neither true nor false: the comparison panics.
\<close>

theorem SetIfPresent_panics_on_slices:
  "\<not> isl (New 1)
   \<and> \<not> isl (Set (projr (New 1)) ''k'' (VSlice empty_slice))
   \<and> Get (projr (Set (projr (New 1)) ''k'' (VSlice empty_slice))) ''k''
       = Inr (VSlice empty_slice, True)
   \<and> SetIfPresent (projr (Set (projr (New 1)) ''k'' (VSlice empty_slice))) ''k''
         (VInt 1) (VSlice empty_slice)
       = Inl UncomparableType"
  by (simp add: New_def Set_def Get_def SetIfPresent_def GetShard_ok comma_ok_def assign_def)

text \<open>
  Claim C2, amended. Unless the key is present and the stored value and the expected old
  value are both of one dynamic type that Go cannot compare (here: slices of one slice
  type), \<open>SetIfPresent\<close> returns true exactly when the key is present and the stored
  value equals the expected old value; it then stores the new value, and in every other
  such case it returns false and the table is unchanged. When the key is present and both
  values are of one such type, the comparison panics.
\<close>

theorem SetIfPresent_compare_and_swap:
  assumes "Get m key = Inr (cur, present)"
  shows "(\<not> (present \<and> same_slice_type cur old) \<longrightarrow>
            (\<exists>m'. SetIfPresent m key new old = Inr (present \<and> cur = old, m')
                 \<and> (if present \<and> cur = old then Get m' key = Inr (new, True) else m' = m)))
       \<and> (present \<and> same_slice_type cur old \<longrightarrow>
            SetIfPresent m key new old = Inl UncomparableType)"
proof -
  from assms obtain i where i: "GetShard m key = Inr i"
    and c: "comma_ok (HashMap m ! i) key = (cur, present)"
    by (rule Get_present_cases)
  consider (absent) "\<not> present"
    | (panic) "present" "same_slice_type cur old"
    | (equal) "present" "\<not> same_slice_type cur old" "cur = old"
    | (differ) "present" "\<not> same_slice_type cur old" "cur \<noteq> old"
    by blast
  then show ?thesis
  proof cases
    case absent
    with i c have "SetIfPresent m key new old = Inr (False, m)"
      by (simp add: SetIfPresent_def)
    with absent show ?thesis by simp
  next
    case panic
    with i c have "SetIfPresent m key new old = Inl UncomparableType"
      by (simp add: SetIfPresent_def interface_eq_cases)
    with panic show ?thesis by simp
  next
    case equal
    with i c have "SetIfPresent m key new old = Inr (True, assign m i key new)"
      by (simp add: SetIfPresent_def interface_eq_cases)
    moreover from i have "Get (assign m i key new) key = Inr (new, True)"
      by (rule Get_assign_same)
    ultimately show ?thesis using equal by simp
  next
    case differ
    with i c have "SetIfPresent m key new old = Inr (False, m)"
      by (simp add: SetIfPresent_def interface_eq_cases)
    with differ show ?thesis by simp
  qed
qed

theorem SetIfPresent_compare_and_swap_witness:
  "Get \<lparr>Shards = 2, HashMap = [Map.empty, [''b'' \<mapsto> VInt 1]]\<rparr> ''b'' = Inr (VInt 1, True)
   \<and> (\<exists>m'. SetIfPresent \<lparr>Shards = 2, HashMap = [Map.empty, [''b'' \<mapsto> VInt 1]]\<rparr> ''b''
               (VInt 2) (VInt 1) = Inr (True, m')
          \<and> Get m' ''b'' = Inr (VInt 2, True))
   \<and> SetIfPresent \<lparr>Shards = 2, HashMap = [Map.empty, [''b'' \<mapsto> VInt 1]]\<rparr> ''b''
         (VInt 2) (VInt 3)
       = Inr (False, \<lparr>Shards = 2, HashMap = [Map.empty, [''b'' \<mapsto> VInt 1]]\<rparr>)
   \<and> Get \<lparr>Shards = 2, HashMap = [Map.empty, [''b'' \<mapsto> VInt 1]]\<rparr> ''a'' = Inr (VNil, False)
   \<and> SetIfPresent \<lparr>Shards = 2, HashMap = [Map.empty, [''b'' \<mapsto> VInt 1]]\<rparr> ''a''
         (VInt 2) (VInt 1)
       = Inr (False, \<lparr>Shards = 2, HashMap = [Map.empty, [''b'' \<mapsto> VInt 1]]\<rparr>)
   \<and> Get \<lparr>Shards = 1, HashMap = [[''k'' \<mapsto> VSlice slice_of_one]]\<rparr> ''k''
       = Inr (VSlice slice_of_one, True)
   \<and> SetIfPresent \<lparr>Shards = 1, HashMap = [[''k'' \<mapsto> VSlice slice_of_one]]\<rparr> ''k''
         (VInt 2) (VSlice slice_of_one)
       = Inl UncomparableType"
proof -
  let ?t = "\<lparr>Shards = 2, HashMap = [Map.empty, [''b'' \<mapsto> VInt 1]]\<rparr>"
  let ?u = "\<lparr>Shards = 1, HashMap = [[''k'' \<mapsto> VSlice slice_of_one]]\<rparr>"
  have b: "Get ?t ''b'' = Inr (VInt 1, True)"
    by (simp add: Get_def GetShard_ok comma_ok_def fnv32_foldl)
  have a: "Get ?t ''a'' = Inr (VNil, False)"
    by (simp add: Get_def GetShard_ok comma_ok_def fnv32_foldl)
  have k: "Get ?u ''k'' = Inr (VSlice slice_of_one, True)"
    by (simp add: Get_def GetShard_ok comma_ok_def)
  from SetIfPresent_compare_and_swap [OF b, of "VInt 1" "VInt 2"]
  have 1: "\<exists>m'. SetIfPresent ?t ''b'' (VInt 2) (VInt 1) = Inr (True, m')
          \<and> Get m' ''b'' = Inr (VInt 2, True)"
    by simp
  from SetIfPresent_compare_and_swap [OF b, of "VInt 3" "VInt 2"]
  have 2: "SetIfPresent ?t ''b'' (VInt 2) (VInt 3) = Inr (False, ?t)"
    by simp
  from SetIfPresent_compare_and_swap [OF a, of "VInt 1" "VInt 2"]
  have 3: "SetIfPresent ?t ''a'' (VInt 2) (VInt 1) = Inr (False, ?t)"
    by simp
  from SetIfPresent_compare_and_swap [OF k, of "VSlice slice_of_one" "VInt 2"]
  have 4: "SetIfPresent ?u ''k'' (VInt 2) (VSlice slice_of_one) = Inl UncomparableType"
    by simp
  from b 1 2 a 3 k 4 show ?thesis by blast
qed

section \<open>AddIfPresent\<close>

text \<open>
  Claim C3, as stated, fails for a stored sequence that is not a \<open>[]interface{}\<close>.
  On the table of \<open>New(1)\<close>, after \<open>Set\<close> has stored the \<open>[]Animal\<close> holding
  the dolphin under the key, \<open>AddIfPresent\<close> with the whale appends nothing: the type
  assertion panics.
\<close>

theorem AddIfPresent_panics_on_other_slice_type:
  "\<not> isl (New 1)
   \<and> \<not> isl (Set (projr (New 1)) ''marine'' (VAnimals [''dolphin'']))
   \<and> Get (projr (Set (projr (New 1)) ''marine'' (VAnimals [''dolphin'']))) ''marine''
       = Inr (VAnimals [''dolphin''], True)
   \<and> AddIfPresent (projr (Set (projr (New 1)) ''marine'' (VAnimals [''dolphin''])))
         ''marine'' (VAnimal ''whale'') 0 []
       = Inl TypeAssertionFailed"
  by (simp add: New_def Set_def Get_def AddIfPresent_def GetShard_ok comma_ok_def assign_def)

text \<open>
  Claim C3, amended. For a present key whose stored value is a \<open>[]interface{}\<close> slice,
  \<open>AddIfPresent\<close> stores a slice whose elements are those of the stored slice followed
  by the value. For a present key whose stored value is anything else, a slice of another
  element type included, the type assertion panics. For an absent key it stores the value
  itself, not a one-element sequence, and leaves the heap as it is.
\<close>

theorem AddIfPresent_appends_or_stores:
  assumes "Get m key = Inr (cur, present)"
  shows "(present \<longrightarrow> cur = VSlice s \<longrightarrow> valid_slice h s \<longrightarrow>
            (\<exists>m' h' s'. AddIfPresent m key v growcap h = Inr (True, m', h')
                 \<and> Get m' key = Inr (VSlice s', True)
                 \<and> slice_elems h' s' = slice_elems h s @ [v]
                 \<and> valid_slice h' s'))
       \<and> (present \<longrightarrow> (\<forall>s. cur \<noteq> VSlice s) \<longrightarrow>
            AddIfPresent m key v growcap h = Inl TypeAssertionFailed)
       \<and> (\<not> present \<longrightarrow>
            (\<exists>m'. AddIfPresent m key v growcap h = Inr (False, m', h)
                 \<and> Get m' key = Inr (v, True)))"
proof -
  from assms obtain i where i: "GetShard m key = Inr i"
    and c: "comma_ok (HashMap m ! i) key = (cur, present)"
    by (rule Get_present_cases)
  have 1: "\<exists>m' h' s'. AddIfPresent m key v growcap h = Inr (True, m', h')
                 \<and> Get m' key = Inr (VSlice s', True)
                 \<and> slice_elems h' s' = slice_elems h s @ [v]
                 \<and> valid_slice h' s'"
    if p: "present" "cur = VSlice s" and valid: "valid_slice h s"
  proof -
    obtain s' h' where a: "append_slice growcap h s v = (s', h')"
      by (cases "append_slice growcap h s v")
    from p i c a have "AddIfPresent m key v growcap h = Inr (True, assign m i key (VSlice s'), h')"
      by (simp add: AddIfPresent_def)
    moreover from i have "Get (assign m i key (VSlice s')) key = Inr (VSlice s', True)"
      by (rule Get_assign_same)
    moreover from valid a have "slice_elems h' s' = slice_elems h s @ [v]"
      by (rule append_slice_elems)
    moreover from valid a have "valid_slice h' s'"
      by (rule append_slice_valid)
    ultimately show ?thesis by blast
  qed
  have 2: "AddIfPresent m key v growcap h = Inl TypeAssertionFailed"
    if "present" "\<forall>s. cur \<noteq> VSlice s"
    using that i c by (cases cur) (simp_all add: AddIfPresent_def)
  have 3: "\<exists>m'. AddIfPresent m key v growcap h = Inr (False, m', h) \<and> Get m' key = Inr (v, True)"
    if "\<not> present"
  proof -
    from that i c have "AddIfPresent m key v growcap h = Inr (False, assign m i key v, h)"
      by (simp add: AddIfPresent_def)
    moreover from i have "Get (assign m i key v) key = Inr (v, True)"
      by (rule Get_assign_same)
    ultimately show ?thesis by blast
  qed
  from 1 2 3 show ?thesis by blast
qed

theorem AddIfPresent_appends_or_stores_witness:
  "Get \<lparr>Shards = 2, HashMap = [Map.empty, [''b'' \<mapsto> VSlice slice_of_one]]\<rparr> ''b''
     = Inr (VSlice slice_of_one, True)
   \<and> valid_slice [[VInt 1]] slice_of_one
   \<and> slice_elems [[VInt 1]] slice_of_one = [VInt 1]
   \<and> (\<exists>m' h' s'.
          AddIfPresent \<lparr>Shards = 2, HashMap = [Map.empty, [''b'' \<mapsto> VSlice slice_of_one]]\<rparr>
            ''b'' (VInt 2) 4 [[VInt 1]] = Inr (True, m', h')
          \<and> Get m' ''b'' = Inr (VSlice s', True)
          \<and> slice_elems h' s' = [VInt 1, VInt 2])
   \<and> Get \<lparr>Shards = 2, HashMap = [Map.empty, [''b'' \<mapsto> VSlice slice_of_one]]\<rparr> ''a''
       = Inr (VNil, False)
   \<and> (\<exists>m'.
          AddIfPresent \<lparr>Shards = 2, HashMap = [Map.empty, [''b'' \<mapsto> VSlice slice_of_one]]\<rparr>
            ''a'' (VInt 2) 4 [[VInt 1]] = Inr (False, m', [[VInt 1]])
          \<and> Get m' ''a'' = Inr (VInt 2, True))
   \<and> Get \<lparr>Shards = 2, HashMap = [Map.empty, [''b'' \<mapsto> VAnimals [''dolphin'']]]\<rparr> ''b''
       = Inr (VAnimals [''dolphin''], True)
   \<and> AddIfPresent \<lparr>Shards = 2, HashMap = [Map.empty, [''b'' \<mapsto> VAnimals [''dolphin'']]]\<rparr>
         ''b'' (VAnimal ''whale'') 4 []
       = Inl TypeAssertionFailed"
proof -
  let ?u = "\<lparr>Shards = 2, HashMap = [Map.empty, [''b'' \<mapsto> VSlice slice_of_one]]\<rparr>"
  let ?w = "\<lparr>Shards = 2, HashMap = [Map.empty, [''b'' \<mapsto> VAnimals [''dolphin'']]]\<rparr>"
  let ?s = slice_of_one
  have b: "Get ?u ''b'' = Inr (VSlice ?s, True)"
    by (simp add: Get_def GetShard_ok comma_ok_def fnv32_foldl)
  have a: "Get ?u ''a'' = Inr (VNil, False)"
    by (simp add: Get_def GetShard_ok comma_ok_def fnv32_foldl)
  have w: "Get ?w ''b'' = Inr (VAnimals [''dolphin''], True)"
    by (simp add: Get_def GetShard_ok comma_ok_def fnv32_foldl)
  have v: "valid_slice [[VInt 1]] ?s"
    by (simp add: valid_slice_def)
  have e: "slice_elems [[VInt 1]] ?s = [VInt 1]"
    by (simp add: slice_elems_def)
  from AddIfPresent_appends_or_stores [OF b, of ?s "[[VInt 1]]" "VInt 2" 4] v e
  have 1: "\<exists>m' h' s'. AddIfPresent ?u ''b'' (VInt 2) 4 [[VInt 1]] = Inr (True, m', h')
          \<and> Get m' ''b'' = Inr (VSlice s', True)
          \<and> slice_elems h' s' = [VInt 1, VInt 2]"
    by auto
  from AddIfPresent_appends_or_stores [OF a, of ?s "[[VInt 1]]" "VInt 2" 4]
  have 2: "\<exists>m'. AddIfPresent ?u ''a'' (VInt 2) 4 [[VInt 1]] = Inr (False, m', [[VInt 1]])
          \<and> Get m' ''a'' = Inr (VInt 2, True)"
    by simp
  from AddIfPresent_appends_or_stores [OF w, of ?s "[]" "VAnimal ''whale''" 4]
  have 3: "AddIfPresent ?w ''b'' (VAnimal ''whale'') 4 [] = Inl TypeAssertionFailed"
    by simp
  from b v e 1 a 2 w 3 show ?thesis by blast
qed

section \<open>Construction\<close>

text \<open>
  Claim C9, as stated, fails: \<open>New\<close> reports no error for a shard count of zero; it
  returns a table with no shards.
\<close>

theorem New_zero_returns_a_table:
  "New 0 = Inr \<lparr>Shards = 0, HashMap = []\<rparr>"
  by (simp add: New_def)

text \<open>
  Claim C9, amended. \<open>New\<close> checks nothing itself and has no error result. For a
  negative shard count the allocation of the slice panics, so no table is built; for a
  shard count of zero \<open>New\<close> returns a table with no shards, and every single-key
  operation on that table panics with a division by zero when it selects the shard.
\<close>

theorem New_does_not_validate_shard_count:
  "(shards < 0 \<longrightarrow> New shards = Inl MakeSliceLenOutOfRange)
   \<and> New 0 = Inr \<lparr>Shards = 0, HashMap = []\<rparr>
   \<and> GetShard \<lparr>Shards = 0, HashMap = []\<rparr> key = Inl DivideByZero
   \<and> Get \<lparr>Shards = 0, HashMap = []\<rparr> key = Inl DivideByZero
   \<and> Set \<lparr>Shards = 0, HashMap = []\<rparr> key v = Inl DivideByZero
   \<and> Remove \<lparr>Shards = 0, HashMap = []\<rparr> key = Inl DivideByZero
   \<and> Pop \<lparr>Shards = 0, HashMap = []\<rparr> key = Inl DivideByZero
   \<and> SetIfAbsent \<lparr>Shards = 0, HashMap = []\<rparr> key v = Inl DivideByZero
   \<and> SetIfPresent \<lparr>Shards = 0, HashMap = []\<rparr> key v old = Inl DivideByZero
   \<and> AddIfPresent \<lparr>Shards = 0, HashMap = []\<rparr> key v growcap h = Inl DivideByZero
   \<and> Upsert \<lparr>Shards = 0, HashMap = []\<rparr> key v cb s = Inl DivideByZero
   \<and> Update \<lparr>Shards = 0, HashMap = []\<rparr> key v = Inl DivideByZero
   \<and> UpdateCb \<lparr>Shards = 0, HashMap = []\<rparr> key v cb s = Inl DivideByZero"
  by (simp add: New_def GetShard_zero Get_def Set_def Remove_def Pop_def SetIfAbsent_def
        SetIfPresent_def AddIfPresent_def Upsert_def Update_def UpdateCb_def)

theorem New_does_not_validate_shard_count_witness:
  "(-1 :: int) < 0 \<and> New (-1) = Inl MakeSliceLenOutOfRange
   \<and> New 0 = Inr \<lparr>Shards = 0, HashMap = []\<rparr>
   \<and> Get \<lparr>Shards = 0, HashMap = []\<rparr> ''monkey'' = Inl DivideByZero
   \<and> Set \<lparr>Shards = 0, HashMap = []\<rparr> ''monkey'' (VAnimal ''monkey'') = Inl DivideByZero"
  using New_does_not_validate_shard_count
    [where shards = "-1" and key = "''monkey''" and v = "VAnimal ''monkey''" and old = VNil
       and cb = "appendCombiner :: unit UpsertCb" and s = "()" and growcap = 0 and h = "[]"]
  by simp

section \<open>Frame of the single-key operations\<close>

text \<open>
  Claim C10, as stated, fails for \<open>AddIfPresent\<close>. Let the slice holding 1 and 2 be
  stored under the key \<open>monkey\<close> and its prefix of length one, on the same array with
  capacity two, under the key \<open>a\<close>. \<open>AddIfPresent\<close> of 9 on \<open>a\<close> appends in
  place: \<open>Get\<close> still reports the same slice header for \<open>monkey\<close>, but the elements
  of that slice are now 1 and 9.
\<close>

theorem AddIfPresent_changes_elements_under_another_key:
  "''monkey'' \<noteq> ''a''
   \<and> \<not> isl (New 2)
   \<and> \<not> isl (Set (projr (New 2)) ''monkey'' (VSlice whole_slice))
   \<and> \<not> isl (Set (projr (Set (projr (New 2)) ''monkey'' (VSlice whole_slice)))
                 ''a'' (VSlice prefix_slice))
   \<and> Get aliased_table ''monkey'' = Inr (VSlice whole_slice, True)
   \<and> Get aliased_table ''a'' = Inr (VSlice prefix_slice, True)
   \<and> slice_elems [[VInt 1, VInt 2]] whole_slice = [VInt 1, VInt 2]
   \<and> slice_elems [[VInt 1, VInt 2]] prefix_slice = [VInt 1]
   \<and> \<not> isl (AddIfPresent aliased_table ''a'' (VInt 9) 0 [[VInt 1, VInt 2]])
   \<and> Get (fst (snd (projr (AddIfPresent aliased_table ''a'' (VInt 9) 0 [[VInt 1, VInt 2]]))))
         ''monkey''
       = Inr (VSlice whole_slice, True)
   \<and> slice_elems
         (snd (snd (projr (AddIfPresent aliased_table ''a'' (VInt 9) 0 [[VInt 1, VInt 2]]))))
         whole_slice
       = [VInt 1, VInt 9]"
  by (simp add: New_def Set_def Get_def AddIfPresent_def GetShard_ok comma_ok_def assign_def
        fnv32_foldl append_slice_def slice_elems_def)

text \<open>
  Claim C10, amended. A single-key operation on the key \<open>k\<close> that returns leaves for
  every other key \<open>k'\<close> the shard count, the number of shards, the shard of \<open>k'\<close>,
  what \<open>Get\<close> reports for \<open>k'\<close> (of a stored slice: its array, index, length and
  capacity) and the entry of \<open>k'\<close> in each shard as they were. This holds for
  \<open>Set\<close>, \<open>Remove\<close>, \<open>Pop\<close>, \<open>SetIfAbsent\<close>, \<open>SetIfPresent\<close>,
  \<open>Upsert\<close>, \<open>Update\<close>, \<open>UpdateCb\<close> and \<open>AddIfPresent\<close>. The first eight
  write to no backing array themselves, so they do not take the heap; what a callback does
  to the caller's state is the callback's own effect. \<open>AddIfPresent\<close> leaves the
  elements of every valid slice \<open>t\<close>, such as one stored under another key, as they
  were, unless the slice stored under \<open>k\<close> has spare capacity and the cell just past it
  is an element of \<open>t\<close>; then exactly that element of \<open>t\<close> becomes the appended
  value.
\<close>

theorem single_key_operations_leave_other_keys:
  assumes "k' \<noteq> k"
  shows "(Set m k v = Inr m1 \<longrightarrow> unchanged_for k' m m1)
       \<and> (Remove m k = Inr m2 \<longrightarrow> unchanged_for k' m m2)
       \<and> (Pop m k = Inr (x3, b3, m3) \<longrightarrow> unchanged_for k' m m3)
       \<and> (SetIfAbsent m k v = Inr (b4, m4) \<longrightarrow> unchanged_for k' m m4)
       \<and> (SetIfPresent m k v old = Inr (b5, m5) \<longrightarrow> unchanged_for k' m m5)
       \<and> (Upsert m k v cb s = Inr (r7, m7, s7) \<longrightarrow> unchanged_for k' m m7)
       \<and> (Update m k v = Inr (b8, m8) \<longrightarrow> unchanged_for k' m m8)
       \<and> (UpdateCb m k v cb s = Inr (b9, m9, s9) \<longrightarrow> unchanged_for k' m m9)
       \<and> (AddIfPresent m k v growcap h = Inr (b6, m6, h6) \<longrightarrow>
            unchanged_for k' m m6
          \<and> (Get m k = Inr (cur, present) \<longrightarrow> valid_slice h t \<longrightarrow>
               \<not> append_writes_into cur t \<longrightarrow> slice_elems h6 t = slice_elems h t)
          \<and> (Get m k = Inr (VSlice sk, True) \<longrightarrow> valid_slice h t \<longrightarrow>
               append_writes_into (VSlice sk) t \<longrightarrow>
               slice_elems h6 t = (slice_elems h t)[Index sk + Len sk - Index t := v]))"
proof -
  have a: "slice_elems h6 t = slice_elems h t"
    if "AddIfPresent m k v growcap h = Inr (b6, m6, h6)" "Get m k = Inr (cur, present)"
      "valid_slice h t" "\<not> append_writes_into cur t"
    using AddIfPresent_cases [OF that(2) that(1)] that(3,4)
    by (auto simp: append_writes_into_def dest: append_slice_other)
  have b: "slice_elems h6 t = (slice_elems h t)[Index sk + Len sk - Index t := v]"
    if "AddIfPresent m k v growcap h = Inr (b6, m6, h6)" "Get m k = Inr (VSlice sk, True)"
      "valid_slice h t" "append_writes_into (VSlice sk) t"
    using AddIfPresent_cases [OF that(2) that(1)] that(3,4)
    by (auto simp: append_writes_into_def dest: append_slice_written)
  from assms a b show ?thesis
    by (intro conjI impI)
       (erule (1) frame_Set frame_Remove frame_Pop frame_SetIfAbsent frame_SetIfPresent
          frame_AddIfPresent frame_Upsert frame_Update frame_UpdateCb | blast)+
qed

theorem single_key_operations_leave_other_keys_witness:
  "''monkey'' \<noteq> ''a'' \<and> ''b'' \<noteq> ''a''
   \<and> GetShard frame_table ''a'' = Inr 0
   \<and> GetShard frame_table ''monkey'' = Inr 0
   \<and> GetShard frame_table ''b'' = Inr 1
   \<and> Set frame_table ''a'' (VInt 5) = Inr (assign frame_table 0 ''a'' (VInt 5))
   \<and> Remove frame_table ''a'' = Inr (delete frame_table 0 ''a'')
   \<and> Pop frame_table ''a'' = Inr (VSlice prefix_slice, True, delete frame_table 0 ''a'')
   \<and> SetIfAbsent frame_table ''a'' (VInt 5) = Inr (False, frame_table)
   \<and> SetIfPresent frame_table ''a'' (VInt 5) (VInt 1) = Inr (False, frame_table)
   \<and> Upsert frame_table ''a'' (VInt 5) (\<lambda>exist valueInMap newValue s. Inr (newValue, s)) ()
       = Inr (VInt 5, assign frame_table 0 ''a'' (VInt 5), ())
   \<and> Update frame_table ''a'' (VInt 5) = Inr (True, assign frame_table 0 ''a'' (VInt 5))
   \<and> UpdateCb frame_table ''a'' (VInt 5) (\<lambda>exist valueInMap newValue s. Inr (newValue, s)) ()
       = Inr (True, assign frame_table 0 ''a'' (VInt 5), ())
   \<and> AddIfPresent frame_table ''a'' (VInt 5) 0 [[VInt 1, VInt 2], [VInt 3]]
       = Inr (True, assign frame_table 0 ''a'' (VSlice whole_slice), [[VInt 1, VInt 5], [VInt 3]])
   \<and> unchanged_for ''monkey'' frame_table (assign frame_table 0 ''a'' (VInt 5))
   \<and> unchanged_for ''monkey'' frame_table (delete frame_table 0 ''a'')
   \<and> unchanged_for ''monkey'' frame_table frame_table
   \<and> unchanged_for ''monkey'' frame_table (assign frame_table 0 ''a'' (VSlice whole_slice))
   \<and> unchanged_for ''b'' frame_table (assign frame_table 0 ''a'' (VInt 5))
   \<and> unchanged_for ''b'' frame_table (delete frame_table 0 ''a'')
   \<and> unchanged_for ''b'' frame_table frame_table
   \<and> unchanged_for ''b'' frame_table (assign frame_table 0 ''a'' (VSlice whole_slice))
   \<and> Get (delete frame_table 0 ''a'') ''monkey'' = Inr (VSlice whole_slice, True)
   \<and> Get (assign frame_table 0 ''a'' (VSlice whole_slice)) ''monkey''
       = Inr (VSlice whole_slice, True)
   \<and> Get (assign frame_table 0 ''a'' (VSlice whole_slice)) ''b'' = Inr (VSlice other_slice, True)
   \<and> Get frame_table ''a'' = Inr (VSlice prefix_slice, True)
   \<and> valid_slice [[VInt 1, VInt 2], [VInt 3]] other_slice
   \<and> \<not> append_writes_into (VSlice prefix_slice) other_slice
   \<and> slice_elems [[VInt 1, VInt 2], [VInt 3]] other_slice = [VInt 3]
   \<and> slice_elems [[VInt 1, VInt 5], [VInt 3]] other_slice = [VInt 3]
   \<and> valid_slice [[VInt 1, VInt 2], [VInt 3]] whole_slice
   \<and> append_writes_into (VSlice prefix_slice) whole_slice
   \<and> slice_elems [[VInt 1, VInt 2], [VInt 3]] whole_slice = [VInt 1, VInt 2]
   \<and> slice_elems [[VInt 1, VInt 5], [VInt 3]] whole_slice = [VInt 1, VInt 5]"
proof -
  let ?t = "frame_table"
  let ?h = "[[VInt 1, VInt 2], [VInt 3]]"
  let ?h' = "[[VInt 1, VInt 5], [VInt 3]]"
  let ?cb = "\<lambda>exist valueInMap newValue s. Inr (newValue, s) :: panic + val \<times> unit"
  have n: "''monkey'' \<noteq> ''a''" "''b'' \<noteq> ''a''"
    by simp_all
  have g: "GetShard ?t ''a'' = Inr 0" "GetShard ?t ''monkey'' = Inr 0" "GetShard ?t ''b'' = Inr 1"
    by (simp_all add: GetShard_ok fnv32_foldl)
  have 1: "Set ?t ''a'' (VInt 5) = Inr (assign ?t 0 ''a'' (VInt 5))"
    unfolding Set_def g by simp
  have 2: "Remove ?t ''a'' = Inr (delete ?t 0 ''a'')"
    unfolding Remove_def g by simp
  have 3: "Pop ?t ''a'' = Inr (VSlice prefix_slice, True, delete ?t 0 ''a'')"
    unfolding Pop_def g by (simp add: comma_ok_def)
  have 4: "SetIfAbsent ?t ''a'' (VInt 5) = Inr (False, ?t)"
    unfolding SetIfAbsent_def g by (simp add: comma_ok_def)
  have 5: "SetIfPresent ?t ''a'' (VInt 5) (VInt 1) = Inr (False, ?t)"
    unfolding SetIfPresent_def g by (simp add: comma_ok_def)
  have 6: "AddIfPresent ?t ''a'' (VInt 5) 0 ?h
      = Inr (True, assign ?t 0 ''a'' (VSlice whole_slice), ?h')"
    unfolding AddIfPresent_def g by (simp add: comma_ok_def append_slice_def numeral_2_eq_2)
  have 7: "Upsert ?t ''a'' (VInt 5) ?cb () = Inr (VInt 5, assign ?t 0 ''a'' (VInt 5), ())"
    unfolding Upsert_def g by (simp add: comma_ok_def)
  have 8: "Update ?t ''a'' (VInt 5) = Inr (True, assign ?t 0 ''a'' (VInt 5))"
    unfolding Update_def g by (simp add: comma_ok_def)
  have 9: "UpdateCb ?t ''a'' (VInt 5) ?cb () = Inr (True, assign ?t 0 ''a'' (VInt 5), ())"
    unfolding UpdateCb_def g by (simp add: comma_ok_def)
  note ops = 1 2 3 4 5 6 7 8 9
  have ga: "Get ?t ''a'' = Inr (VSlice prefix_slice, True)"
    unfolding Get_def g by (simp add: comma_ok_def)
  have vb: "valid_slice ?h other_slice" "\<not> append_writes_into (VSlice prefix_slice) other_slice"
    "slice_elems ?h other_slice = [VInt 3]"
    by (simp_all add: valid_slice_def append_writes_into_def slice_has_cell_def slice_elems_def)
  have vm: "valid_slice ?h whole_slice" "append_writes_into (VSlice prefix_slice) whole_slice"
    "slice_elems ?h whole_slice = [VInt 1, VInt 2]"
    by (simp_all add: valid_slice_def append_writes_into_def slice_has_cell_def slice_elems_def)
  from single_key_operations_leave_other_keys [OF n(1), where m = ?t and v = "VInt 5"
      and old = "VInt 1" and cb = ?cb and s = "()" and growcap = 0 and h = ?h
      and cur = "VSlice prefix_slice" and present = True and sk = prefix_slice
      and ?m1.0 = "assign ?t 0 ''a'' (VInt 5)" and ?m2.0 = "delete ?t 0 ''a''"
      and ?x3.0 = "VSlice prefix_slice" and ?b3.0 = True and ?m3.0 = "delete ?t 0 ''a''"
      and ?b4.0 = False and ?m4.0 = ?t and ?b5.0 = False and ?m5.0 = ?t
      and ?r7.0 = "VInt 5" and ?m7.0 = "assign ?t 0 ''a'' (VInt 5)" and ?s7.0 = "()"
      and ?b8.0 = True and ?m8.0 = "assign ?t 0 ''a'' (VInt 5)"
      and ?b9.0 = True and ?m9.0 = "assign ?t 0 ''a'' (VInt 5)" and ?s9.0 = "()"
      and ?b6.0 = True and ?m6.0 = "assign ?t 0 ''a'' (VSlice whole_slice)" and ?h6.0 = ?h'
      and t = other_slice] ops ga vb
  have a: "unchanged_for ''monkey'' ?t (assign ?t 0 ''a'' (VInt 5))"
    "unchanged_for ''monkey'' ?t (delete ?t 0 ''a'')"
    "unchanged_for ''monkey'' ?t ?t"
    "unchanged_for ''monkey'' ?t (assign ?t 0 ''a'' (VSlice whole_slice))"
    "slice_elems ?h' other_slice = slice_elems ?h other_slice"
    by blast+
  from single_key_operations_leave_other_keys [OF n(2), where m = ?t and v = "VInt 5"
      and old = "VInt 1" and cb = ?cb and s = "()" and growcap = 0 and h = ?h
      and cur = "VSlice prefix_slice" and present = True and sk = prefix_slice
      and ?m1.0 = "assign ?t 0 ''a'' (VInt 5)" and ?m2.0 = "delete ?t 0 ''a''"
      and ?x3.0 = "VSlice prefix_slice" and ?b3.0 = True and ?m3.0 = "delete ?t 0 ''a''"
      and ?b4.0 = False and ?m4.0 = ?t and ?b5.0 = False and ?m5.0 = ?t
      and ?r7.0 = "VInt 5" and ?m7.0 = "assign ?t 0 ''a'' (VInt 5)" and ?s7.0 = "()"
      and ?b8.0 = True and ?m8.0 = "assign ?t 0 ''a'' (VInt 5)"
      and ?b9.0 = True and ?m9.0 = "assign ?t 0 ''a'' (VInt 5)" and ?s9.0 = "()"
      and ?b6.0 = True and ?m6.0 = "assign ?t 0 ''a'' (VSlice whole_slice)" and ?h6.0 = ?h'
      and t = whole_slice] ops ga vm
  have b: "unchanged_for ''b'' ?t (assign ?t 0 ''a'' (VInt 5))"
    "unchanged_for ''b'' ?t (delete ?t 0 ''a'')"
    "unchanged_for ''b'' ?t ?t"
    "unchanged_for ''b'' ?t (assign ?t 0 ''a'' (VSlice whole_slice))"
    "slice_elems ?h' whole_slice
       = (slice_elems ?h whole_slice)
           [Index prefix_slice + Len prefix_slice - Index whole_slice := VInt 5]"
    by blast+
  from a(5) vb(3) have ea: "slice_elems ?h' other_slice = [VInt 3]"
    by simp
  from b(5) vm(3) have eb: "slice_elems ?h' whole_slice = [VInt 1, VInt 5]"
    by simp
  have "Get ?t ''monkey'' = Inr (VSlice whole_slice, True)" "Get ?t ''b'' = Inr (VSlice other_slice, True)"
    unfolding Get_def g by (simp_all add: comma_ok_def)
  with a(2) a(4) b(4) have c: "Get (delete ?t 0 ''a'') ''monkey'' = Inr (VSlice whole_slice, True)"
    "Get (assign ?t 0 ''a'' (VSlice whole_slice)) ''monkey'' = Inr (VSlice whole_slice, True)"
    "Get (assign ?t 0 ''a'' (VSlice whole_slice)) ''b'' = Inr (VSlice other_slice, True)"
    by (simp_all add: unchanged_for_def)
  from n g ops ga vb vm a(1-4) b(1-4) ea eb c show ?thesis by blast
qed

end
